theory Spec2Isabelle
  imports Complex_Main
begin

section \<open>The uniform grid index of \<^verbatim>\<open>src/scene/octree.py\<close>\<close>

text \<open>
  The class \<^verbatim>\<open>Octree\<close> keeps three numpy arrays (positions, scales, rotations), the
  parameters of a cubic grid computed once in the constructor, and two dictionaries:
  \<^verbatim>\<open>cells\<close> (cell coordinate to list of handles) and \<^verbatim>\<open>point_cells\<close> (handle to
  list of cell coordinates).

  Numbers: numpy's float64 values are modelled by the reals, so rounding and overflow
  are idealised away. The values that are not reals (\<^verbatim>\<open>inf\<close>, \<^verbatim>\<open>nan\<close>) only arise
  from a division by zero or from \<^verbatim>\<open>log2\<close> of a non-positive number; both places are
  written out below. A row of an array of shape (N, 3) is a triple, a rotation a triple
  of rows. Handles are Python integers (\<^typ>\<open>int\<close>): \<^verbatim>\<open>update_point\<close> takes any
  integer, and numpy reads a negative one from the end of the array.
\<close>

type_synonym vec3 = "real \<times> real \<times> real"
type_synonym mat3 = "vec3 \<times> vec3 \<times> vec3"
type_synonym cell = "int \<times> int \<times> int"

datatype py_error = ValueError | OverflowError | IndexError

record octree =
  points :: "vec3 list"
  scales :: "vec3 list"
  rotations :: "mat3 list"
  min_cell_size :: real
  global_min :: vec3
  global_max :: vec3
  depth :: int
  n_cells :: int
  cell_size :: vec3
  default_extent :: real
  cells :: "cell \<rightharpoonup> int list"
  point_cells :: "int \<rightharpoonup> cell list"

subsection \<open>Array arithmetic\<close>

fun vadd :: "vec3 \<Rightarrow> vec3 \<Rightarrow> vec3" where
  "vadd (a, b, c) (x, y, z) = (a + x, b + y, c + z)"

fun vsub :: "vec3 \<Rightarrow> vec3 \<Rightarrow> vec3" where
  "vsub (a, b, c) (x, y, z) = (a - x, b - y, c - z)"

fun vadds :: "vec3 \<Rightarrow> real \<Rightarrow> vec3" where
  "vadds (a, b, c) k = (a + k, b + k, c + k)"

fun vsubs :: "vec3 \<Rightarrow> real \<Rightarrow> vec3" where
  "vsubs (a, b, c) k = (a - k, b - k, c - k)"

fun vdivs :: "vec3 \<Rightarrow> real \<Rightarrow> vec3" where
  "vdivs (a, b, c) k = (a / k, b / k, c / k)"

fun vmax :: "vec3 \<Rightarrow> real" where
  "vmax (a, b, c) = max a (max b c)"

fun axis0 :: "vec3 \<Rightarrow> real" where "axis0 (a, b, c) = a"
fun axis1 :: "vec3 \<Rightarrow> real" where "axis1 (a, b, c) = b"
fun axis2 :: "vec3 \<Rightarrow> real" where "axis2 (a, b, c) = c"

text \<open>\<^verbatim>\<open>min\<close> and \<^verbatim>\<open>max\<close> of a non-empty column; the caller excludes the empty array.\<close>

definition reduce_min :: "real list \<Rightarrow> real" where
  "reduce_min xs = fold min (tl xs) (hd xs)"

definition reduce_max :: "real list \<Rightarrow> real" where
  "reduce_max xs = fold max (tl xs) (hd xs)"

definition points_min :: "vec3 list \<Rightarrow> vec3" where
  "points_min ps = (reduce_min (map axis0 ps), reduce_min (map axis1 ps), reduce_min (map axis2 ps))"

definition points_max :: "vec3 list \<Rightarrow> vec3" where
  "points_max ps = (reduce_max (map axis0 ps), reduce_max (map axis1 ps), reduce_max (map axis2 ps))"

text \<open>
  \<^verbatim>\<open>x / y\<close> on float64 arrays: a zero divisor gives \<^verbatim>\<open>inf\<close> or \<^verbatim>\<open>nan\<close> and a
  warning, never an exception. \<^const>\<open>None\<close> stands for such a non-finite value.
  \<^verbatim>\<open>np.floor(v).astype(int)\<close> of a non-finite value is the smallest 64-bit integer on
  the usual platforms.
\<close>

definition np_divide :: "real \<Rightarrow> real \<Rightarrow> real option" where
  "np_divide x y = (if y = 0 then None else Some (x / y))"

definition floor_astype_int :: "real option \<Rightarrow> int" where
  "floor_astype_int v = (case v of None \<Rightarrow> - (2 ^ 63) | Some r \<Rightarrow> \<lfloor>r\<rfloor>)"

definition np_clip :: "int \<Rightarrow> int \<Rightarrow> int \<Rightarrow> int" where
  "np_clip a lo hi = min (max a lo) hi"

text \<open>
  Indexing the first axis of an array of \<open>n\<close> rows with a Python integer: negative
  indices count from the end, anything outside \<open>[-n, n)\<close> raises IndexError.
\<close>

definition np_index :: "nat \<Rightarrow> int \<Rightarrow> nat option" where
  "np_index n i =
     (if 0 \<le> i \<and> i < int n then Some (nat i)
      else if - int n \<le> i \<and> i < 0 then Some (nat (int n + i))
      else None)"

subsection \<open>Cell assignment and the two dictionaries\<close>

definition start_idx :: "octree \<Rightarrow> real \<Rightarrow> real \<Rightarrow> real \<Rightarrow> int" where
  "start_idx s p g c =
     np_clip (floor_astype_int (np_divide ((p - default_extent s) - g) c)) 0 (n_cells s - 1)"

definition end_idx :: "octree \<Rightarrow> real \<Rightarrow> real \<Rightarrow> real \<Rightarrow> int" where
  "end_idx s p g c =
     np_clip (floor_astype_int (np_divide ((p + default_extent s) - g) c)) 0 (n_cells s - 1)"

text \<open>The three nested \<^verbatim>\<open>for\<close> loops over \<^verbatim>\<open>range(start, end + 1)\<close>, in their order.\<close>

definition cell_block :: "int list \<Rightarrow> int list \<Rightarrow> int list \<Rightarrow> cell list" where
  "cell_block xs ys zs =
     concat (map (\<lambda>ix. concat (map (\<lambda>iy. map (\<lambda>iz. (ix, iy, iz)) zs) ys)) xs)"

fun get_cell_indices_for_point :: "octree \<Rightarrow> vec3 \<Rightarrow> cell list" where
  "get_cell_indices_for_point s (px, py, pz) =
     (case global_min s of (gx, gy, gz) \<Rightarrow>
      case cell_size s of (cx, cy, cz) \<Rightarrow>
        cell_block [start_idx s px gx cx .. end_idx s px gx cx]
                   [start_idx s py gy cy .. end_idx s py gy cy]
                   [start_idx s pz gz cz .. end_idx s pz gz cz])"

text \<open>\<^verbatim>\<open>d.get(k, [])\<close>: the list stored under a key, empty when the key is absent.\<close>

definition get_list :: "('k \<rightharpoonup> 'v list) \<Rightarrow> 'k \<Rightarrow> 'v list" where
  "get_list m k = (case m k of None \<Rightarrow> [] | Some l \<Rightarrow> l)"

text \<open>One round of the loop in \<^verbatim>\<open>_insert_point\<close>: create the list if absent, append.\<close>

definition append_handle :: "int \<Rightarrow> cell \<Rightarrow> (cell \<rightharpoonup> int list) \<Rightarrow> (cell \<rightharpoonup> int list)" where
  "append_handle index c m = m(c \<mapsto> get_list m c @ [index])"

text \<open>\<^verbatim>\<open>_insert_point\<close>; the scale and the rotation are parameters it never reads.\<close>

definition internal_insert_point :: "int \<Rightarrow> vec3 \<Rightarrow> vec3 \<Rightarrow> mat3 \<Rightarrow> octree \<Rightarrow> octree" where
  "internal_insert_point index point scale rotation s =
     (let cell_indices = get_cell_indices_for_point s point
      in s\<lparr>cells := fold (append_handle index) cell_indices (cells s),
            point_cells := (point_cells s)(index \<mapsto> cell_indices)\<rparr>)"

text \<open>
  One round of the loop in \<^verbatim>\<open>remove_point\<close>: \<^verbatim>\<open>list.remove\<close> deletes the first
  occurrence, and only when the cell exists and holds the handle.
\<close>

definition drop_handle :: "int \<Rightarrow> cell \<Rightarrow> (cell \<rightharpoonup> int list) \<Rightarrow> (cell \<rightharpoonup> int list)" where
  "drop_handle index c m =
     (case m c of None \<Rightarrow> m
      | Some l \<Rightarrow> if index \<in> set l then m(c \<mapsto> remove1 index l) else m)"

definition remove_point :: "int \<Rightarrow> octree \<Rightarrow> octree" where
  "remove_point index s =
     (case point_cells s index of None \<Rightarrow> s
      | Some cs \<Rightarrow> s\<lparr>cells := fold (drop_handle index) cs (cells s),
                      point_cells := (point_cells s)(index := None)\<rparr>)"

text \<open>
  \<^verbatim>\<open>update_point\<close>: the removal comes first, then the three array writes, each of
  which raises IndexError for an index outside its array, and the state reached so far
  stays behind; then the re-insertion under the same handle.
\<close>

definition update_point ::
  "int \<Rightarrow> vec3 \<Rightarrow> vec3 \<Rightarrow> mat3 \<Rightarrow> octree \<Rightarrow> (py_error + unit) \<times> octree" where
  "update_point index new_point new_scale new_rotation s =
     (let s1 = remove_point index s in
      case np_index (length (points s1)) index of None \<Rightarrow> (Inl IndexError, s1)
      | Some i \<Rightarrow>
     (let s2 = s1\<lparr>points := (points s1)[i := new_point]\<rparr> in
      case np_index (length (scales s2)) index of None \<Rightarrow> (Inl IndexError, s2)
      | Some j \<Rightarrow>
     (let s3 = s2\<lparr>scales := (scales s2)[j := new_scale]\<rparr> in
      case np_index (length (rotations s3)) index of None \<Rightarrow> (Inl IndexError, s3)
      | Some k \<Rightarrow>
     (let s4 = s3\<lparr>rotations := (rotations s3)[k := new_rotation]\<rparr> in
      (Inr (), internal_insert_point index new_point new_scale new_rotation s4)))))"

text \<open>\<^verbatim>\<open>insert_point\<close>: the new handle is the number of rows before the append.\<close>

definition insert_point :: "vec3 \<Rightarrow> vec3 \<Rightarrow> mat3 \<Rightarrow> octree \<Rightarrow> int \<times> octree" where
  "insert_point point scale rotation s =
     (let index = int (length (points s));
          s1 = s\<lparr>points := points s @ [point],
                 scales := scales s @ [scale],
                 rotations := rotations s @ [rotation]\<rparr>
      in (index, internal_insert_point index point scale rotation s1))"

subsection \<open>Queries\<close>

definition query_idx :: "octree \<Rightarrow> real \<Rightarrow> real \<Rightarrow> real \<Rightarrow> int" where
  "query_idx s p g gm =
     np_clip (floor_astype_int
                (map_option (\<lambda>rel_pos. rel_pos * real_of_int (n_cells s)) (np_divide (p - g) (gm - g))))
             0 (n_cells s - 1)"

fun query_cell :: "octree \<Rightarrow> vec3 \<Rightarrow> cell" where
  "query_cell s (px, py, pz) =
     (case global_min s of (gx, gy, gz) \<Rightarrow>
      case global_max s of (mx, my, mz) \<Rightarrow>
        (query_idx s px gx mx, query_idx s py gy my, query_idx s pz gz mz))"

definition query :: "octree \<Rightarrow> vec3 \<Rightarrow> int list" where
  "query s point = get_list (cells s) (query_cell s point)"

subsection \<open>The constructor\<close>

definition range_val :: "vec3 list \<Rightarrow> real" where
  "range_val pts = vmax (vsub (points_max pts) (points_min pts))"

text \<open>
  \<^verbatim>\<open>int(np.floor(np.log2(range_val / min_cell_size))) if range_val > min_cell_size else 0\<close>.
  With \<^verbatim>\<open>min_cell_size = 0\<close> the quotient is \<^verbatim>\<open>inf\<close>, and so is its logarithm; a
  quotient of zero has logarithm \<^verbatim>\<open>-inf\<close>; \<^verbatim>\<open>int\<close> of either raises OverflowError. A
  negative quotient has logarithm \<^verbatim>\<open>nan\<close>, and \<^verbatim>\<open>int(nan)\<close> raises ValueError.
\<close>

definition compute_depth :: "real \<Rightarrow> real \<Rightarrow> py_error + int" where
  "compute_depth r mcs =
     (if r > mcs then
        (if mcs = 0 then Inl OverflowError
         else if r / mcs < 0 then Inl ValueError
         else if r / mcs = 0 then Inl OverflowError
         else Inr \<lfloor>log 2 (r / mcs)\<rfloor>)
      else Inr 0)"

text \<open>
  The loop \<^verbatim>\<open>for i in range(N): self._insert_point(i, points[i], scales[i], rotations[i])\<close>;
  reading a row that an array does not have raises IndexError.
\<close>

fun init_loop :: "nat list \<Rightarrow> octree \<Rightarrow> py_error + octree" where
  "init_loop [] s = Inr s"
| "init_loop (i # rest) s =
     (if i < length (points s) \<and> i < length (scales s) \<and> i < length (rotations s)
      then init_loop rest
             (internal_insert_point (int i) (points s ! i) (scales s ! i) (rotations s ! i) s)
      else Inl IndexError)"

text \<open>
  \<^verbatim>\<open>Octree.__init__\<close>. \<^verbatim>\<open>points.min(axis=0)\<close> raises ValueError on an array without
  rows; nothing else looks at the arguments before they are used.
\<close>

definition octree_init :: "vec3 list \<Rightarrow> vec3 list \<Rightarrow> mat3 list \<Rightarrow> real \<Rightarrow> py_error + octree" where
  "octree_init pts scs rots mcs =
     (if pts = [] then Inl ValueError
      else
        let basic_min = points_min pts;
            basic_max = points_max pts;
            center = vdivs (vadd basic_min basic_max) 2;
            rv = vmax (vsub basic_max basic_min);
            gmin = vsubs center (rv / 2);
            gmax = vadds center (rv / 2)
        in case compute_depth rv mcs of Inl e \<Rightarrow> Inl e
           | Inr d \<Rightarrow>
        let n = (if d > 0 then 2 ^ nat d else 1);
            cs = vdivs (vsub gmax gmin) (real_of_int n)
        in init_loop [0..<length pts]
             \<lparr>points = pts, scales = scs, rotations = rots, min_cell_size = mcs,
              global_min = gmin, global_max = gmax, depth = d, n_cells = n,
              cell_size = cs, default_extent = axis0 cs / 4,
              cells = Map.empty, point_cells = Map.empty\<rparr>)"

subsection \<open>Sequences of calls\<close>

datatype call =
    InsertPoint vec3 vec3 mat3
  | UpdatePoint int vec3 vec3 mat3
  | RemovePoint int
  | QueryCell vec3
  | Query vec3

text \<open>
  The state a call leaves behind, whether it returned or raised. The two queries
  assign to no attribute of the object.
\<close>

fun exec :: "call \<Rightarrow> octree \<Rightarrow> octree" where
  "exec (InsertPoint p sc r) s = snd (insert_point p sc r s)"
| "exec (UpdatePoint h p sc r) s = snd (update_point h p sc r s)"
| "exec (RemovePoint h) s = remove_point h s"
| "exec (QueryCell p) s = s"
| "exec (Query p) s = s"

definition run :: "call list \<Rightarrow> octree \<Rightarrow> octree" where
  "run calls s = fold exec calls s"

subsection \<open>Invariants and auxiliary states\<close>

definition grid :: "octree \<Rightarrow> vec3 \<times> vec3 \<times> int \<times> int \<times> vec3 \<times> real" where
  "grid s = (global_min s, global_max s, depth s, n_cells s, cell_size s, default_extent s)"

definition consistent :: "octree \<Rightarrow> bool" where
  "consistent s \<longleftrightarrow>
     (\<forall>h c. h \<in> set (get_list (cells s) c) \<longleftrightarrow> c \<in> set (get_list (point_cells s) h))"

definition index_inv :: "octree \<Rightarrow> bool" where
  "index_inv s \<longleftrightarrow>
     consistent s \<and> (\<forall>c. distinct (get_list (cells s) c)) \<and>
     (\<forall>h. point_cells s h \<noteq> None \<longrightarrow>
        - int (length (points s)) \<le> h \<and> h < int (length (points s)))"

definition arrays_inv :: "octree \<Rightarrow> bool" where
  "arrays_inv s \<longleftrightarrow>
     length (points s) \<le> length (scales s) \<and> length (points s) \<le> length (rotations s)"

definition octree_inv :: "octree \<Rightarrow> bool" where
  "octree_inv s \<longleftrightarrow> index_inv s \<and> arrays_inv s"

text \<open>What a successful update leaves behind.\<close>

definition updated :: "int \<Rightarrow> vec3 \<Rightarrow> vec3 \<Rightarrow> mat3 \<Rightarrow> octree \<Rightarrow> octree" where
  "updated h p sc r s =
     internal_insert_point h p sc r
       ((remove_point h s)\<lparr>points := (points s)[the (np_index (length (points s)) h) := p],
          scales := (scales s)[the (np_index (length (scales s)) h) := sc],
          rotations := (rotations s)[the (np_index (length (rotations s)) h) := r]\<rparr>)"

definition ident :: mat3 where "ident = ((1,0,0),(0,1,0),(0,0,1))"

definition empty_index :: "vec3 list \<Rightarrow> vec3 list \<Rightarrow> mat3 list \<Rightarrow> real \<Rightarrow> int \<Rightarrow> octree" where
  "empty_index pts scs rots mcs d =
     (let center = vdivs (vadd (points_min pts) (points_max pts)) 2;
          gmin = vsubs center (range_val pts / 2);
          gmax = vadds center (range_val pts / 2);
          n = (if d > 0 then 2 ^ nat d else 1);
          cs = vdivs (vsub gmax gmin) (real_of_int n)
      in \<lparr>points = pts, scales = scs, rotations = rots, min_cell_size = mcs,
          global_min = gmin, global_max = gmax, depth = d, n_cells = n,
          cell_size = cs, default_extent = axis0 cs / 4,
          cells = Map.empty, point_cells = Map.empty\<rparr>)"

definition scenario_state :: octree where
  "scenario_state =
     \<lparr>points = [(0,0,0),(1,1,1)], scales = [(1,1,1),(1,1,1)], rotations = [ident, ident],
      min_cell_size = 3/5, global_min = (0,0,0), global_max = (1,1,1), depth = 0, n_cells = 1,
      cell_size = (1,1,1), default_extent = 1/4,
      cells = [(0,0,0) \<mapsto> [0,1]], point_cells = [0 \<mapsto> [(0,0,0)], 1 \<mapsto> [(0,0,0)]]\<rparr>"

definition grid_wf :: "octree \<Rightarrow> bool" where
  "grid_wf s \<longleftrightarrow>
     1 \<le> n_cells s \<and>
     cell_size s = vdivs (vsub (global_max s) (global_min s)) (real_of_int (n_cells s)) \<and>
     default_extent s = axis0 (cell_size s) / 4 \<and>
     0 \<le> axis0 (vsub (global_max s) (global_min s)) \<and>
     0 \<le> axis1 (vsub (global_max s) (global_min s)) \<and>
     0 \<le> axis2 (vsub (global_max s) (global_min s))"

fun nonneg_handle :: "call \<Rightarrow> bool" where
  "nonneg_handle (UpdatePoint h p sc r) = (0 \<le> h)"
| "nonneg_handle (InsertPoint p sc r) = True"
| "nonneg_handle (RemovePoint h) = True"
| "nonneg_handle (QueryCell p) = True"
| "nonneg_handle (Query p) = True"

definition pos_inv :: "octree \<Rightarrow> bool" where
  "pos_inv s \<longleftrightarrow>
     (\<forall>h cs. point_cells s h = Some cs \<longrightarrow>
        0 \<le> h \<and> cs = get_cell_indices_for_point s (points s ! nat h))"

text \<open>
  A second concrete grid, four cells along each axis, and a short run on it: a point that
  straddles two cells is inserted, handle 0 is moved to the far corner, handle 1 is removed.
\<close>

definition wide_state :: octree where
  "wide_state =
     \<lparr>points = [(0,0,0),(4,4,4)], scales = [(1,1,1),(1,1,1)], rotations = [ident, ident],
      min_cell_size = 1, global_min = (0,0,0), global_max = (4,4,4), depth = 2, n_cells = 4,
      cell_size = (1,1,1), default_extent = 1/4,
      cells = [(0,0,0) \<mapsto> [0], (3,3,3) \<mapsto> [1]],
      point_cells = [0 \<mapsto> [(0,0,0)], 1 \<mapsto> [(3,3,3)]]\<rparr>"

definition wide_calls :: "call list" where
  "wide_calls =
     [InsertPoint (1,1/2,1/2) (1,1,1) ident, UpdatePoint 0 (4,4,4) (2,2,2) ident, RemovePoint 1]"

definition wide_final :: octree where
  "wide_final =
     \<lparr>points = [(4,4,4),(4,4,4),(1,1/2,1/2)], scales = [(2,2,2),(1,1,1),(1,1,1)],
      rotations = [ident, ident, ident],
      min_cell_size = 1, global_min = (0,0,0), global_max = (4,4,4), depth = 2, n_cells = 4,
      cell_size = (1,1,1), default_extent = 1/4,
      cells = [(0,0,0) \<mapsto> [2], (3,3,3) \<mapsto> [0], (1,0,0) \<mapsto> [2]],
      point_cells = [0 \<mapsto> [(3,3,3)], 2 \<mapsto> [(0,0,0),(1,0,0)]]\<rparr>"

section \<open>Properties of the dictionaries and the grid\<close>

lemma cell_block_product: "cell_block xs ys zs = List.product xs (List.product ys zs)"
  by (simp add: cell_block_def product_concat_map map_concat comp_def)

lemma distinct_cell_block:
  "distinct xs \<Longrightarrow> distinct ys \<Longrightarrow> distinct zs \<Longrightarrow> distinct (cell_block xs ys zs)"
  by (simp add: cell_block_product distinct_product)


lemma distinct_get_cell_indices: "distinct (get_cell_indices_for_point s p)"
  by (cases p) (simp add: distinct_cell_block split: prod.splits)

lemma get_list_upd: "get_list (m(k \<mapsto> l)) k' = (if k' = k then l else get_list m k')"
  by (simp add: get_list_def)

lemma get_list_del: "get_list (m(k := None)) k' = (if k' = k then [] else get_list m k')"
  by (simp add: get_list_def)

lemma get_list_None: "m k = None \<Longrightarrow> get_list m k = []"
  by (simp add: get_list_def)

lemma get_list_Some: "m k = Some l \<Longrightarrow> get_list m k = l"
  by (simp add: get_list_def)

lemma get_list_append_handle:
  "get_list (append_handle h a m) c = (if c = a then get_list m a @ [h] else get_list m c)"
  by (simp add: append_handle_def get_list_upd)

lemma get_list_fold_append:
  "distinct cs \<Longrightarrow>
   get_list (fold (append_handle h) cs m) c = get_list m c @ (if c \<in> set cs then [h] else [])"
proof (induction cs arbitrary: m)
  case Nil
  then show ?case by simp
next
  case (Cons a cs)
  then show ?case by (auto simp: get_list_append_handle)
qed

lemma get_list_drop_handle:
  "get_list (drop_handle h a m) c = (if c = a then remove1 h (get_list m a) else get_list m c)"
  by (auto simp: drop_handle_def get_list_def remove1_idem split: option.splits)

lemma get_list_fold_drop:
  "(\<And>c. distinct (get_list m c)) \<Longrightarrow>
   get_list (fold (drop_handle h) cs m) c =
     (if c \<in> set cs then removeAll h (get_list m c) else get_list m c)"
proof (induction cs arbitrary: m)
  case Nil
  then show ?case by simp
next
  case (Cons a cs)
  have d: "distinct (get_list (drop_handle h a m) c)" for c
    using Cons.prems by (simp add: get_list_drop_handle)
  show ?case
    using Cons.prems Cons.IH [OF d]
    by (auto simp: get_list_drop_handle distinct_remove1_removeAll)
qed

lemma drop_handle_None: "drop_handle h a m c = None \<longleftrightarrow> m c = None"
  by (auto simp: drop_handle_def split: option.splits)

lemma fold_drop_handle_None: "fold (drop_handle h) cs m c = None \<longleftrightarrow> m c = None"
  by (induction cs arbitrary: m) (simp_all add: drop_handle_None)

lemma grid_internal_insert [simp]: "grid (internal_insert_point h p sc r s) = grid s"
  by (simp add: grid_def internal_insert_point_def Let_def)

lemma grid_remove [simp]: "grid (remove_point h s) = grid s"
  by (simp add: grid_def remove_point_def split: option.splits)

lemma get_cell_indices_grid:
  "grid s = grid t \<Longrightarrow> get_cell_indices_for_point s p = get_cell_indices_for_point t p"
  by (cases p) (simp add: grid_def start_idx_def end_idx_def)

lemma arrays_internal_insert [simp]:
  "points (internal_insert_point h p sc r s) = points s"
  "scales (internal_insert_point h p sc r s) = scales s"
  "rotations (internal_insert_point h p sc r s) = rotations s"
  by (simp_all add: internal_insert_point_def Let_def)

lemma arrays_remove [simp]:
  "points (remove_point h s) = points s"
  "scales (remove_point h s) = scales s"
  "rotations (remove_point h s) = rotations s"
  by (simp_all add: remove_point_def split: option.splits)

lemma cells_internal_insert:
  "get_list (cells (internal_insert_point h p sc r s)) c =
     get_list (cells s) c @ (if c \<in> set (get_cell_indices_for_point s p) then [h] else [])"
  by (simp add: internal_insert_point_def Let_def get_list_fold_append distinct_get_cell_indices)

lemma point_cells_internal_insert:
  "point_cells (internal_insert_point h p sc r s) =
     (point_cells s)(h \<mapsto> get_cell_indices_for_point s p)"
  by (simp add: internal_insert_point_def Let_def)

lemma cells_remove:
  assumes "\<And>c. distinct (get_list (cells s) c)"
  shows "get_list (cells (remove_point h s)) c =
     (if c \<in> set (get_list (point_cells s) h) then removeAll h (get_list (cells s) c)
      else get_list (cells s) c)"
proof (cases "point_cells s h")
  case None
  then show ?thesis by (simp add: remove_point_def get_list_def)
next
  case (Some cs)
  then have "get_list (point_cells s) h = cs" by (simp add: get_list_def)
  with Some assms show ?thesis by (simp add: remove_point_def get_list_fold_drop)
qed

lemma point_cells_remove: "point_cells (remove_point h s) = (point_cells s)(h := None)"
  by (auto simp: remove_point_def split: option.splits)

lemma inv_distinct: "index_inv s \<Longrightarrow> distinct (get_list (cells s) c)"
  unfolding index_inv_def by blast

lemma inv_member:
  "index_inv s \<Longrightarrow> h \<in> set (get_list (cells s) c) \<longleftrightarrow> c \<in> set (get_list (point_cells s) h)"
  unfolding index_inv_def consistent_def by blast

lemma inv_handle_range:
  "index_inv s \<Longrightarrow> point_cells s h = Some cs \<Longrightarrow>
   - int (length (points s)) \<le> h \<and> h < int (length (points s))"
  unfolding index_inv_def by simp

lemma index_invI:
  assumes "\<And>h c. h \<in> set (get_list (cells s) c) \<longleftrightarrow> c \<in> set (get_list (point_cells s) h)"
    and "\<And>c. distinct (get_list (cells s) c)"
    and "\<And>h cs. point_cells s h = Some cs \<Longrightarrow>
           - int (length (points s)) \<le> h \<and> h < int (length (points s))"
  shows "index_inv s"
  unfolding index_inv_def consistent_def using assms by blast

lemma index_inv_cong:
  "index_inv s \<Longrightarrow> cells t = cells s \<Longrightarrow> point_cells t = point_cells s \<Longrightarrow>
   length (points s) \<le> length (points t) \<Longrightarrow> index_inv t"
  unfolding index_inv_def consistent_def by fastforce

lemma inv_fresh:
  "index_inv s \<Longrightarrow> point_cells s h = None \<Longrightarrow> h \<notin> set (get_list (cells s) c)"
  by (simp add: inv_member get_list_None)

lemma inv_internal_insert:
  assumes "index_inv s" and "point_cells s h = None"
    and "- int (length (points s)) \<le> h" and "h < int (length (points s))"
  shows "index_inv (internal_insert_point h p sc r s)"
proof (rule index_invI)
  fix g c
  show "g \<in> set (get_list (cells (internal_insert_point h p sc r s)) c) \<longleftrightarrow>
        c \<in> set (get_list (point_cells (internal_insert_point h p sc r s)) g)"
    using inv_fresh [OF assms(1,2)] inv_member [OF assms(1)]
    by (auto simp: cells_internal_insert point_cells_internal_insert get_list_upd)
next
  fix c
  show "distinct (get_list (cells (internal_insert_point h p sc r s)) c)"
    using inv_fresh [OF assms(1,2)] inv_distinct [OF assms(1)]
    by (simp add: cells_internal_insert)
next
  fix g cs
  assume "point_cells (internal_insert_point h p sc r s) g = Some cs"
  then show "- int (length (points (internal_insert_point h p sc r s))) \<le> g \<and>
        g < int (length (points (internal_insert_point h p sc r s)))"
    using assms(3,4) inv_handle_range [OF assms(1)]
    by (auto simp: point_cells_internal_insert split: if_splits)
qed

lemma inv_remove:
  assumes "index_inv s"
  shows "index_inv (remove_point h s)"
proof (rule index_invI)
  fix g c
  show "g \<in> set (get_list (cells (remove_point h s)) c) \<longleftrightarrow>
        c \<in> set (get_list (point_cells (remove_point h s)) g)"
    using inv_member [OF assms]
    by (auto simp: cells_remove [OF inv_distinct [OF assms]] point_cells_remove get_list_del)
next
  fix c
  show "distinct (get_list (cells (remove_point h s)) c)"
    using inv_distinct [OF assms]
    by (simp add: cells_remove [OF inv_distinct [OF assms]] distinct_removeAll)
next
  fix g cs
  assume "point_cells (remove_point h s) g = Some cs"
  then show "- int (length (points (remove_point h s))) \<le> g \<and>
        g < int (length (points (remove_point h s)))"
    using inv_handle_range [OF assms]
    by (auto simp: point_cells_remove split: if_splits)
qed

lemma arrays_inv_internal_insert [simp]:
  "arrays_inv (internal_insert_point h p sc r s) = arrays_inv s"
  by (simp add: arrays_inv_def)

lemma arrays_inv_remove [simp]: "arrays_inv (remove_point h s) = arrays_inv s"
  by (simp add: arrays_inv_def)

lemma np_index_Some: "np_index n h = Some i \<Longrightarrow> - int n \<le> h \<and> h < int n \<and> i < n"
  by (auto simp: np_index_def split: if_splits)

lemma np_index_defined: "- int n \<le> h \<Longrightarrow> h < int n \<Longrightarrow> \<exists>i. np_index n h = Some i"
  by (simp add: np_index_def)

lemma np_index_mono: "np_index n h = Some i \<Longrightarrow> n \<le> m \<Longrightarrow> \<exists>j. np_index m h = Some j"
  by (auto simp: np_index_def split: if_splits)

lemma update_point_ok:
  assumes "arrays_inv s" and "- int (length (points s)) \<le> h" and "h < int (length (points s))"
  shows "update_point h p sc r s = (Inr (), updated h p sc r s)"
proof -
  obtain i where i: "np_index (length (points s)) h = Some i"
    using np_index_defined [OF assms(2,3)] by blast
  obtain j where j: "np_index (length (scales s)) h = Some j"
    using np_index_mono [OF i] assms(1) unfolding arrays_inv_def by blast
  obtain k where k: "np_index (length (rotations s)) h = Some k"
    using np_index_mono [OF i] assms(1) unfolding arrays_inv_def by blast
  show ?thesis
    by (simp add: update_point_def updated_def Let_def i j k)
qed

lemma inv_update: 
  assumes "index_inv s"
  shows "index_inv (snd (update_point h p sc r s))"
proof -
  let ?s1 = "remove_point h s"
  have s1: "index_inv ?s1" using assms by (rule inv_remove)
  have none: "point_cells ?s1 h = None" by (simp add: point_cells_remove)
  show ?thesis
  proof (cases "np_index (length (points s)) h")
    case None
    then show ?thesis using s1 by (simp add: update_point_def Let_def)
  next
    case (Some i)
    let ?s2 = "?s1\<lparr>points := (points ?s1)[i := p]\<rparr>"
    have s2: "index_inv ?s2" using s1 by (rule index_inv_cong) simp_all
    show ?thesis
    proof (cases "np_index (length (scales s)) h")
      case None
      then show ?thesis using Some s2 by (simp add: update_point_def Let_def)
    next
      case (Some j)
      note j = Some
      let ?s3 = "?s2\<lparr>scales := (scales ?s2)[j := sc]\<rparr>"
      have s3: "index_inv ?s3" using s2 by (rule index_inv_cong) simp_all
      show ?thesis
      proof (cases "np_index (length (rotations s)) h")
        case None
        then show ?thesis using \<open>np_index (length (points s)) h = Some i\<close> j s3
          by (simp add: update_point_def Let_def)
      next
        case (Some k)
        let ?s4 = "?s3\<lparr>rotations := (rotations ?s3)[k := r]\<rparr>"
        have s4: "index_inv ?s4" using s3 by (rule index_inv_cong) simp_all
        have "index_inv (internal_insert_point h p sc r ?s4)"
          using np_index_Some [OF \<open>np_index (length (points s)) h = Some i\<close>] none
          by (intro inv_internal_insert [OF s4]) simp_all
        then show ?thesis using \<open>np_index (length (points s)) h = Some i\<close> j Some
          by (simp add: update_point_def Let_def)
      qed
    qed
  qed
qed

lemma arrays_inv_update: "arrays_inv s \<Longrightarrow> arrays_inv (snd (update_point h p sc r s))"
  by (simp add: update_point_def Let_def arrays_inv_def split: option.splits)

lemma inv_insert:
  assumes "index_inv s"
  shows "index_inv (snd (insert_point p sc r s))"
proof -
  let ?s1 = "s\<lparr>points := points s @ [p], scales := scales s @ [sc],
                rotations := rotations s @ [r]\<rparr>"
  have s1: "index_inv ?s1" using assms by (rule index_inv_cong) simp_all
  have "point_cells ?s1 (int (length (points s))) = None"
    using inv_handle_range [OF assms, of "int (length (points s))"]
    by (cases "point_cells s (int (length (points s)))") simp_all
  then have "index_inv (internal_insert_point (int (length (points s))) p sc r ?s1)"
    by (intro inv_internal_insert [OF s1]) simp_all
  then show ?thesis by (simp add: insert_point_def Let_def)
qed

lemma arrays_inv_insert: "arrays_inv s \<Longrightarrow> arrays_inv (snd (insert_point p sc r s))"
  by (simp add: insert_point_def Let_def arrays_inv_def)

lemma inv_exec: "octree_inv s \<Longrightarrow> octree_inv (exec c s)"
  by (cases c)
     (simp_all add: octree_inv_def inv_insert inv_update inv_remove arrays_inv_insert arrays_inv_update)

lemma inv_run: "octree_inv s \<Longrightarrow> octree_inv (run calls s)"
  unfolding run_def by (induction calls arbitrary: s) (simp_all add: inv_exec)

lemma octree_init_eq:
  "octree_init pts scs rots mcs =
     (if pts = [] then Inl ValueError
      else case compute_depth (range_val pts) mcs of Inl e \<Rightarrow> Inl e
           | Inr d \<Rightarrow> init_loop [0..<length pts] (empty_index pts scs rots mcs d))"
  by (simp add: octree_init_def empty_index_def range_val_def Let_def split: sum.splits)

lemma scenario_range_val: "range_val [(0,0,0),(1,1,1)] = 1"
  by (simp add: range_val_def points_max_def points_min_def reduce_max_def reduce_min_def)

lemma scenario_depth: "compute_depth 1 (3/5) = Inr 0"
  by (simp add: compute_depth_def floor_log_eq_powr_iff)

lemma scenario_empty_index: "empty_index [(0,0,0),(1,1,1)] [(1,1,1),(1,1,1)] [ident, ident] (3/5) 0 =
   \<lparr>points = [(0,0,0),(1,1,1)], scales = [(1,1,1),(1,1,1)], rotations = [ident, ident],
      min_cell_size = 3/5, global_min = (0,0,0), global_max = (1,1,1), depth = 0, n_cells = 1,
      cell_size = (1,1,1), default_extent = 1/4,
      cells = Map.empty, point_cells = Map.empty\<rparr>"
  by (simp add: empty_index_def scenario_range_val points_max_def points_min_def reduce_max_def reduce_min_def Let_def)

lemmas cell_eval = internal_insert_point_def start_idx_def end_idx_def np_divide_def
  floor_astype_int_def np_clip_def cell_block_def append_handle_def get_list_def Let_def

lemma scenario_init: "octree_init [(0,0,0),(1,1,1)] [(1,1,1),(1,1,1)] [ident, ident] (3/5) = Inr scenario_state"
  apply (simp add: octree_init_eq scenario_range_val scenario_depth scenario_empty_index upt_rec)
  apply (simp add: cell_eval scenario_state_def)
  done

lemma init_loop_result:
  assumes "init_loop [k..<n] s = Inr t" and "index_inv s" and "n \<le> length (points s)"
    and "\<And>h cs. point_cells s h = Some cs \<Longrightarrow> h < int k"
  shows "index_inv t \<and> grid t = grid s \<and> points t = points s \<and> scales t = scales s \<and>
         rotations t = rotations s \<and> min_cell_size t = min_cell_size s \<and>
         (k < n \<longrightarrow> n \<le> length (scales s) \<and> n \<le> length (rotations s))"
  using assms
proof (induction "n - k" arbitrary: k s)
  case 0
  then show ?case by simp
next
  case (Suc d)
  then have kn: "k < n" by simp
  let ?s' = "internal_insert_point (int k) (points s ! k) (scales s ! k) (rotations s ! k) s"
  from Suc.prems(1) kn have chk: "k < length (scales s)" "k < length (rotations s)"
    and rest: "init_loop [Suc k..<n] ?s' = Inr t"
    by (auto simp: upt_conv_Cons split: if_splits)
  have none: "point_cells s (int k) = None"
    using Suc.prems(4) [of "int k"] by (cases "point_cells s (int k)") auto
  have inv': "index_inv ?s'"
    using kn Suc.prems(3) by (intro inv_internal_insert [OF Suc.prems(2) none]) simp_all
  have fresh': "\<And>h cs. point_cells ?s' h = Some cs \<Longrightarrow> h < int (Suc k)"
    using Suc.prems(4) by (fastforce simp: point_cells_internal_insert split: if_splits)
  have len': "n \<le> length (points ?s')" using Suc.prems(3) by simp
  have d: "d = n - Suc k" using Suc.hyps(2) by simp
  have "index_inv t \<and> grid t = grid ?s' \<and> points t = points ?s' \<and> scales t = scales ?s' \<and>
         rotations t = rotations ?s' \<and> min_cell_size t = min_cell_size ?s' \<and>
         (Suc k < n \<longrightarrow> n \<le> length (scales ?s') \<and> n \<le> length (rotations ?s'))"
    using d rest inv' len' fresh' by (rule Suc.hyps(1))
  moreover have "min_cell_size ?s' = min_cell_size s"
    by (simp add: internal_insert_point_def Let_def)
  ultimately show ?case
    using chk by (auto simp: Suc_lessI [OF kn])
qed

lemma reduce_min_Min: "xs \<noteq> [] \<Longrightarrow> reduce_min xs = Min (set xs)"
  by (cases xs) (simp_all add: reduce_min_def Min.set_eq_fold [symmetric])

lemma reduce_max_Max: "xs \<noteq> [] \<Longrightarrow> reduce_max xs = Max (set xs)"
  by (cases xs) (simp_all add: reduce_max_def Max.set_eq_fold [symmetric])

lemma reduce_min_le_max: "xs \<noteq> [] \<Longrightarrow> reduce_min xs \<le> reduce_max xs"
proof -
  assume ne: "xs \<noteq> []"
  then have "hd xs \<in> set xs" by simp
  then have "Min (set xs) \<le> hd xs" "hd xs \<le> Max (set xs)" by simp_all
  then show ?thesis using ne by (simp add: reduce_min_Min reduce_max_Max)
qed

lemma range_val_nonneg: "pts \<noteq> [] \<Longrightarrow> 0 \<le> range_val pts"
  using reduce_min_le_max [of "map axis0 pts"]
  by (simp add: range_val_def points_max_def points_min_def max_def)

lemma reduce_const:
  assumes "xs \<noteq> []" and "\<And>x. x \<in> set xs \<Longrightarrow> x = a"
  shows "reduce_min xs = a" and "reduce_max xs = a"
proof -
  have "set xs = {a}" using assms by (cases xs) auto
  then show "reduce_min xs = a" and "reduce_max xs = a"
    using assms(1) by (simp_all add: reduce_min_Min reduce_max_Max)
qed

lemma range_val_identical:
  assumes "pts \<noteq> []" and "\<And>p. p \<in> set pts \<Longrightarrow> p = q"
  shows "range_val pts = 0"
proof -
  have "reduce_min (map f pts) = f q \<and> reduce_max (map f pts) = f q" for f :: "vec3 \<Rightarrow> real"
    using assms by (intro conjI reduce_const) auto
  then show ?thesis
    by (simp add: range_val_def points_max_def points_min_def)
qed

lemma cube_edges:
  "vsub (vadds (vdivs (vadd a b) 2) (r / 2)) (vsubs (vdivs (vadd a b) 2) (r / 2)) = (r, r, r)"
  by (cases a; cases b) (simp add: field_simps)

lemma empty_index_grid:
  "global_max (empty_index pts scs rots mcs d) =
     vadds (vdivs (vadd (points_min pts) (points_max pts)) 2) (range_val pts / 2)"
  "global_min (empty_index pts scs rots mcs d) =
     vsubs (vdivs (vadd (points_min pts) (points_max pts)) 2) (range_val pts / 2)"
  "n_cells (empty_index pts scs rots mcs d) = (if d > 0 then 2 ^ nat d else 1)"
  "depth (empty_index pts scs rots mcs d) = d"
  "cell_size (empty_index pts scs rots mcs d) =
     (range_val pts / real_of_int (if d > 0 then 2 ^ nat d else 1),
      range_val pts / real_of_int (if d > 0 then 2 ^ nat d else 1),
      range_val pts / real_of_int (if d > 0 then 2 ^ nat d else 1))"
  "default_extent (empty_index pts scs rots mcs d) =
     range_val pts / real_of_int (if d > 0 then 2 ^ nat d else 1) / 4"
  by (simp_all add: empty_index_def Let_def cube_edges)

lemma empty_index_arrays [simp]:
  "points (empty_index pts scs rots mcs d) = pts"
  "scales (empty_index pts scs rots mcs d) = scs"
  "rotations (empty_index pts scs rots mcs d) = rots"
  "min_cell_size (empty_index pts scs rots mcs d) = mcs"
  "cells (empty_index pts scs rots mcs d) = Map.empty"
  "point_cells (empty_index pts scs rots mcs d) = Map.empty"
  by (simp_all add: empty_index_def Let_def)

lemma grid_wf_empty_index: "pts \<noteq> [] \<Longrightarrow> grid_wf (empty_index pts scs rots mcs d)"
  using range_val_nonneg [of pts]
  by (simp add: grid_wf_def empty_index_grid cube_edges)

lemma grid_wf_cong: "grid s = grid t \<Longrightarrow> grid_wf s = grid_wf t"
  by (simp add: grid_def grid_wf_def)

lemma index_inv_empty_index: "index_inv (empty_index pts scs rots mcs d)"
  by (rule index_invI) (simp_all add: get_list_def)

lemma octree_init_result:
  assumes "octree_init pts scs rots mcs = Inr t"
  obtains d where "pts \<noteq> []" and "compute_depth (range_val pts) mcs = Inr d"
    and "grid t = grid (empty_index pts scs rots mcs d)"
    and "points t = pts" and "scales t = scs" and "rotations t = rots"
    and "min_cell_size t = mcs" and "octree_inv t"
proof -
  from assms have ne: "pts \<noteq> []"
    by (auto simp: octree_init_eq split: if_splits)
  with assms obtain d where d: "compute_depth (range_val pts) mcs = Inr d"
    and loop: "init_loop [0..<length pts] (empty_index pts scs rots mcs d) = Inr t"
    by (auto simp: octree_init_eq split: sum.splits)
  have r: "index_inv t \<and> grid t = grid (empty_index pts scs rots mcs d) \<and>
      points t = points (empty_index pts scs rots mcs d) \<and>
      scales t = scales (empty_index pts scs rots mcs d) \<and>
      rotations t = rotations (empty_index pts scs rots mcs d) \<and>
      min_cell_size t = min_cell_size (empty_index pts scs rots mcs d) \<and>
      (0 < length pts \<longrightarrow> length pts \<le> length (scales (empty_index pts scs rots mcs d)) \<and>
         length pts \<le> length (rotations (empty_index pts scs rots mcs d)))"
    by (rule init_loop_result [OF loop index_inv_empty_index]) simp_all
  then have "octree_inv t" using ne by (simp add: octree_inv_def arrays_inv_def)
  with r ne d show thesis by (intro that [of d]) simp_all
qed

lemma grid_exec [simp]: "grid (exec c s) = grid s"
  by (cases c) (simp_all add: insert_point_def update_point_def Let_def grid_def 
      internal_insert_point_def remove_point_def split: option.splits)

lemma grid_run [simp]: "grid (run calls s) = grid s"
  unfolding run_def by (induction calls arbitrary: s) simp_all




lemma grid_arrays_update [simp]:
  "grid (s\<lparr>points := ps\<rparr>) = grid s"
  "grid (s\<lparr>scales := ss\<rparr>) = grid s"
  "grid (s\<lparr>rotations := rs\<rparr>) = grid s"
  by (simp_all add: grid_def)

lemma update_point_snd:
  assumes "arrays_inv s"
  shows "snd (update_point h p sc r s) =
     (if - int (length (points s)) \<le> h \<and> h < int (length (points s))
      then updated h p sc r s else remove_point h s)"
proof (cases "- int (length (points s)) \<le> h \<and> h < int (length (points s))")
  case True
  then show ?thesis using update_point_ok [OF assms, of h p sc r] by simp
next
  case False
  then have "np_index (length (points s)) h = None"
    by (auto simp: np_index_def)
  with False show ?thesis by (auto simp: update_point_def Let_def)
qed

lemma pos_internal_insert:
  assumes "pos_inv s" and "0 \<le> h" and "points s ! nat h = p"
  shows "pos_inv (internal_insert_point h p sc r s)"
  using assms get_cell_indices_grid [OF grid_internal_insert, of h p sc r s]
  unfolding pos_inv_def
  by (auto simp: point_cells_internal_insert)

lemma pos_remove: "pos_inv s \<Longrightarrow> pos_inv (remove_point h s)"
  using get_cell_indices_grid [OF grid_remove, of h s]
  unfolding pos_inv_def
  by (auto simp: point_cells_remove split: if_splits)

lemma pos_cong:
  assumes "pos_inv s" and "point_cells t = point_cells s" and "grid t = grid s"
    and "\<And>h cs. point_cells s h = Some cs \<Longrightarrow> points t ! nat h = points s ! nat h"
  shows "pos_inv t"
  using assms get_cell_indices_grid [OF assms(3)]
  unfolding pos_inv_def by auto

lemma np_index_nonneg: "0 \<le> h \<Longrightarrow> h < int n \<Longrightarrow> np_index n h = Some (nat h)"
  by (simp add: np_index_def)

lemma pos_updated:
  assumes "pos_inv s" and "index_inv s" and "0 \<le> h" and "h < int (length (points s))"
  shows "pos_inv (updated h p sc r s)"
  unfolding updated_def
proof (rule pos_internal_insert [OF _ assms(3)])
  let ?t = "(remove_point h s)\<lparr>points := (points s)[the (np_index (length (points s)) h) := p],
          scales := (scales s)[the (np_index (length (scales s)) h) := sc],
          rotations := (rotations s)[the (np_index (length (rotations s)) h) := r]\<rparr>"
  show "points ?t ! nat h = p"
    using assms(3,4) by (simp add: np_index_nonneg)
  show "pos_inv ?t"
  proof (rule pos_cong [OF pos_remove [OF assms(1), of h]])
    fix g cs
    assume "point_cells (remove_point h s) g = Some cs"
    then have "g \<noteq> h" and "point_cells s g = Some cs"
      by (auto simp: point_cells_remove split: if_splits)
    then have "0 \<le> g" using assms(1) by (simp add: pos_inv_def)
    with \<open>g \<noteq> h\<close> assms(3) have "nat g \<noteq> nat h" by simp
    then show "points ?t ! nat g = points (remove_point h s) ! nat g"
      using assms(3,4) by (simp add: np_index_nonneg)
  qed simp_all
qed

lemma pos_insert:
  assumes "pos_inv s" and "index_inv s"
  shows "pos_inv (snd (insert_point p sc r s))"
proof -
  let ?t = "s\<lparr>points := points s @ [p], scales := scales s @ [sc],
                rotations := rotations s @ [r]\<rparr>"
  have "pos_inv ?t"
  proof (rule pos_cong [OF assms(1)])
    fix g cs
    assume g: "point_cells s g = Some cs"
    then have "0 \<le> g" using assms(1) by (simp add: pos_inv_def)
    moreover have "g < int (length (points s))" using inv_handle_range [OF assms(2) g] by simp
    ultimately have "nat g < length (points s)" by simp
    then show "points ?t ! nat g = points s ! nat g"
      by (simp add: nth_append)
  qed (simp_all add: grid_def)
  then have "pos_inv (internal_insert_point (int (length (points s))) p sc r ?t)"
    by (rule pos_internal_insert) simp_all
  then show ?thesis by (simp add: insert_point_def Let_def)
qed

lemma pos_exec:
  assumes "pos_inv s" and "octree_inv s" and "nonneg_handle c"
  shows "pos_inv (exec c s)"
proof (cases c)
  case (UpdatePoint h p sc r)
  then show ?thesis
    using assms pos_updated [of s h p sc r] pos_remove [of s h]
    by (simp add: octree_inv_def update_point_snd)
qed (use assms in \<open>simp_all add: pos_insert pos_remove octree_inv_def\<close>)

lemma pos_run:
  "pos_inv s \<Longrightarrow> octree_inv s \<Longrightarrow> \<forall>c\<in>set calls. nonneg_handle c \<Longrightarrow> pos_inv (run calls s)"
  unfolding run_def
  by (induction calls arbitrary: s) (simp_all add: pos_exec inv_exec)

lemma init_loop_pos:
  "init_loop [k..<n] s = Inr t \<Longrightarrow> pos_inv s \<Longrightarrow> pos_inv t"
proof (induction "n - k" arbitrary: k s)
  case 0
  then show ?case by simp
next
  case (Suc d)
  then have kn: "k < n" by simp
  let ?s' = "internal_insert_point (int k) (points s ! k) (scales s ! k) (rotations s ! k) s"
  from Suc.prems(1) kn have rest: "init_loop [Suc k..<n] ?s' = Inr t"
    by (auto simp: upt_conv_Cons split: if_splits)
  have "pos_inv ?s'" using Suc.prems(2) by (rule pos_internal_insert) simp_all
  moreover have "d = n - Suc k" using Suc.hyps(2) by simp
  ultimately show ?case using rest Suc.hyps(1) by blast
qed

lemma pos_inv_init:
  assumes "octree_init pts scs rots mcs = Inr t"
  shows "pos_inv t"
proof -
  from assms obtain d where "init_loop [0..<length pts] (empty_index pts scs rots mcs d) = Inr t"
    by (auto simp: octree_init_eq split: if_splits sum.splits)
  moreover have "pos_inv (empty_index pts scs rots mcs d)"
    by (simp add: pos_inv_def)
  ultimately show ?thesis by (rule init_loop_pos)
qed

lemma reachable_facts:
  assumes "octree_init pts scs rots mcs = Inr s0"
  shows "octree_inv (run calls s0)" and "grid_wf (run calls s0)"
proof -
  from assms obtain d where ne: "pts \<noteq> []"
    and g: "grid s0 = grid (empty_index pts scs rots mcs d)" and inv: "octree_inv s0"
    by (rule octree_init_result)
  show "octree_inv (run calls s0)" using inv by (rule inv_run)
  have "grid (run calls s0) = grid (empty_index pts scs rots mcs d)" using g by simp
  from grid_wf_cong [OF this] show "grid_wf (run calls s0)"
    using grid_wf_empty_index [OF ne] by blast
qed

subsection \<open>The concrete grids\<close>

lemmas call_eval = run_def insert_point_def update_point_def remove_point_def np_index_def
  drop_handle_def cell_eval

lemma wide_range_val: "range_val [(0,0,0),(4,4,4)] = 4"
  by (simp add: range_val_def points_max_def points_min_def reduce_max_def reduce_min_def)

lemma wide_depth: "compute_depth 4 1 = Inr 2"
  by (simp add: compute_depth_def floor_log_eq_powr_iff)

lemma wide_empty_index:
  "empty_index [(0,0,0),(4,4,4)] [(1,1,1),(1,1,1)] [ident, ident] 1 2 =
   \<lparr>points = [(0,0,0),(4,4,4)], scales = [(1,1,1),(1,1,1)], rotations = [ident, ident],
      min_cell_size = 1, global_min = (0,0,0), global_max = (4,4,4), depth = 2, n_cells = 4,
      cell_size = (1,1,1), default_extent = 1/4,
      cells = Map.empty, point_cells = Map.empty\<rparr>"
  by (simp add: empty_index_def wide_range_val points_max_def points_min_def reduce_max_def
      reduce_min_def Let_def)

lemma wide_init:
  "octree_init [(0,0,0),(4,4,4)] [(1,1,1),(1,1,1)] [ident, ident] 1 = Inr wide_state"
  apply (simp add: octree_init_eq wide_range_val wide_depth wide_empty_index upt_rec)
  apply (simp add: cell_eval wide_state_def upto.simps)
  done

lemma wide_run: "run wide_calls wide_state = wide_final"
  by (simp add: wide_calls_def wide_state_def wide_final_def call_eval upto.simps fun_upd_twist)

section \<open>The claims\<close>

text \<open>
  C1 (reverse-index consistency). After construction and after any sequence of
  \<^verbatim>\<open>insert_point\<close>, \<^verbatim>\<open>update_point\<close> and \<^verbatim>\<open>remove_point\<close> calls (the
  queries included, and an \<^verbatim>\<open>update_point\<close> that raised half-way too), a handle
  \<open>h\<close> is in the list \<^verbatim>\<open>cells[c]\<close> exactly when the cell \<open>c\<close> is in the list
  \<^verbatim>\<open>point_cells[h]\<close>; an absent key counts as the empty list.
\<close>

theorem reverse_index_consistency:
  assumes "octree_init pts scs rots mcs = Inr s0"
  shows "h \<in> set (get_list (cells (run calls s0)) c) \<longleftrightarrow>
         c \<in> set (get_list (point_cells (run calls s0)) h)"
  using reachable_facts(1) [OF assms, of calls]
  by (simp add: octree_inv_def inv_member)

theorem reverse_index_consistency_witness:
  "octree_init [(0,0,0),(4,4,4)] [(1,1,1),(1,1,1)] [ident, ident] 1 = Inr wide_state \<and>
   (2 \<in> set (get_list (cells (run wide_calls wide_state)) (1,0,0)) \<longleftrightarrow>
    (1,0,0) \<in> set (get_list (point_cells (run wide_calls wide_state)) 2)) \<and>
   2 \<in> set (get_list (cells (run wide_calls wide_state)) (1,0,0))"
  using reverse_index_consistency [OF wide_init, of 2 wide_calls "(1,0,0)"]
  by (simp add: wide_init wide_run) (simp add: wide_final_def get_list_def)



text \<open>
  C6 (frame property of the grid parameters). No sequence of \<^verbatim>\<open>insert_point\<close>,
  \<^verbatim>\<open>update_point\<close>, \<^verbatim>\<open>remove_point\<close>, \<^verbatim>\<open>query_cell\<close> and \<^verbatim>\<open>query\<close> calls
  changes \<^verbatim>\<open>global_min\<close>, \<^verbatim>\<open>global_max\<close>, \<^verbatim>\<open>depth\<close>, \<^verbatim>\<open>n_cells\<close>,
  \<^verbatim>\<open>cell_size\<close> or \<^verbatim>\<open>default_extent\<close>: they keep the values the constructor gave.
\<close>

theorem grid_parameters_frame:
  "global_min (run calls s) = global_min s \<and> global_max (run calls s) = global_max s \<and>
   depth (run calls s) = depth s \<and> n_cells (run calls s) = n_cells s \<and>
   cell_size (run calls s) = cell_size s \<and> default_extent (run calls s) = default_extent s"
  using grid_run [of calls s] by (simp add: grid_def)

text \<open>
  C8 (concrete scenario). Positions \<open>[[0,0,0],[1,1,1]]\<close>, scales \<open>[1,1,1]\<close>, identity
  rotations and \<^verbatim>\<open>min_cell_size = 0.6\<close> give \<^verbatim>\<open>range_val = 1\<close>, depth 0, one cell per
  axis and the single cell \<open>(0,0,0)\<close>; \<^verbatim>\<open>query([0.5,0.5,0.5])\<close> returns \<open>[0,1]\<close>; after
  \<^verbatim>\<open>remove_point(0)\<close> it returns \<open>[1]\<close> and handle 0 has left \<^verbatim>\<open>point_cells\<close>.
\<close>

theorem concrete_scenario:
  "range_val [(0,0,0),(1,1,1)] = 1 \<and>
   octree_init [(0,0,0),(1,1,1)] [(1,1,1),(1,1,1)] [ident, ident] (3/5) = Inr scenario_state \<and>
   depth scenario_state = 0 \<and> n_cells scenario_state = 1 \<and>
   cells scenario_state = [(0,0,0) \<mapsto> [0, 1]] \<and>
   query_cell scenario_state (1/2, 1/2, 1/2) = (0, 0, 0) \<and>
   query scenario_state (1/2, 1/2, 1/2) = [0, 1] \<and>
   query (remove_point 0 scenario_state) (1/2, 1/2, 1/2) = [1] \<and>
   point_cells (remove_point 0 scenario_state) 0 = None"
  by (simp add: scenario_range_val scenario_init)
     (simp add: scenario_state_def query_def query_idx_def call_eval)

end
